theory Spec2Isabelle
  imports Main
begin

section \<open>Characters and text\<close>

text \<open>
  The anonymiser works on Python \<open>str\<close> values, sequences of code points. A text is
  modelled as a \<open>string\<close>, one \<open>char\<close> per code point, so the model covers the
  texts whose code points are below 256. The three character categories the patterns use
  are those of Python's \<open>re\<close> module for \<open>str\<close> patterns on that range:
  \<open>\d\<close> is a decimal digit, \<open>\s\<close> is whitespace, and a word character (the
  category behind \<open>\b\<close>) is an alphanumeric character or the underscore.
  Each category is given by the code points it holds.
\<close>

definition cp :: "char \<Rightarrow> int" where
  "cp c = of_char c"

definition between :: "char \<Rightarrow> char \<Rightarrow> char \<Rightarrow> bool" where
  "between lo hi c = (cp lo \<le> cp c \<and> cp c \<le> cp hi)"

definition is_digit :: "char \<Rightarrow> bool" where
  "is_digit c = between CHR ''0'' CHR ''9'' c"

definition space_cp :: "int \<Rightarrow> bool" where
  "space_cp n = ((9 \<le> n \<and> n \<le> 13) \<or> (28 \<le> n \<and> n \<le> 32) \<or> n = 133 \<or> n = 160)"

definition is_space :: "char \<Rightarrow> bool" where
  "is_space c = space_cp (cp c)"

definition word_cp :: "int \<Rightarrow> bool" where
  "word_cp n = ((48 \<le> n \<and> n \<le> 57) \<or> (65 \<le> n \<and> n \<le> 90) \<or> n = 95 \<or>
     (97 \<le> n \<and> n \<le> 122) \<or>
     n = 170 \<or> n = 178 \<or> n = 179 \<or> n = 181 \<or> n = 185 \<or> n = 186 \<or>
     n = 188 \<or> n = 189 \<or> n = 190 \<or>
     (192 \<le> n \<and> n \<le> 214) \<or> (216 \<le> n \<and> n \<le> 246) \<or> 248 \<le> n)"

definition is_word :: "char \<Rightarrow> bool" where
  "is_word c = word_cp (cp c)"

text \<open>\<open>str.lower\<close> on one code point below 256.\<close>

definition lower_cp :: "int \<Rightarrow> int" where
  "lower_cp n =
     (if (65 \<le> n \<and> n \<le> 90) \<or> (192 \<le> n \<and> n \<le> 214) \<or> (216 \<le> n \<and> n \<le> 222)
      then n + 32 else n)"

definition lower :: "char \<Rightarrow> char" where
  "lower c = char_of (lower_cp (cp c))"

section \<open>Regular expressions\<close>

text \<open>
  The six patterns of \<open>_compile_patterns\<close> are built from literals, literals compared
  without case (what \<open>re.IGNORECASE\<close> makes of the letters of \<open>port\<close>), character
  sets, negated sets, the word boundary \<open>\b\<close>, concatenation and greedy repetition
  \<open>{m,n}\<close> (\<open>+\<close> is \<open>{1,}\<close>, \<open>?\<close> is \<open>{0,1}\<close>).
\<close>

datatype citem = Single char | Range char char | Digit | Space

datatype rx =
    Lit char
  | LitI char
  | Any "citem list"
  | Non "citem list"
  | Bound
  | Eps
  | Seq rx rx
  | Rep nat "nat option" rx

fun cat :: "rx list \<Rightarrow> rx" where
  "cat [] = Eps"
| "cat [r] = r"
| "cat (r # rs) = Seq r (cat rs)"

fun item_ok :: "citem \<Rightarrow> char \<Rightarrow> bool" where
  "item_ok (Single d) c = (c = d)"
| "item_ok (Range lo hi) c = between lo hi c"
| "item_ok Digit c = is_digit c"
| "item_ok Space c = is_space c"

definition in_set :: "citem list \<Rightarrow> char \<Rightarrow> bool" where
  "in_set S c = list_ex (\<lambda>i. item_ok i c) S"

text \<open>
  A position in the text is the character before it (if any) and the text from it on.
  The matcher is the backtracking matcher of \<open>re\<close>, written as the list of the
  positions where a match of the expression starting here can end, in the order in which
  backtracking tries them: the head of the list is the match \<open>re\<close> reports.
\<close>

type_synonym pos = "char option \<times> string"

fun step :: "(char \<Rightarrow> bool) \<Rightarrow> pos \<Rightarrow> pos list" where
  "step ok (p, []) = []"
| "step ok (p, c # cs) = (if ok c then [(Some c, cs)] else [])"

fun word_before :: "pos \<Rightarrow> bool" where
  "word_before (None, cs) = False"
| "word_before (Some c, cs) = is_word c"

fun word_after :: "pos \<Rightarrow> bool" where
  "word_after (p, []) = False"
| "word_after (p, c # cs) = is_word c"

definition at_boundary :: "pos \<Rightarrow> bool" where
  "at_boundary st = (word_before st \<noteq> word_after st)"

text \<open>
  Greedy repetition: one more round of the body is tried before stopping here; \<open>lo\<close>
  rounds are still owed and at most \<open>hi\<close> are left.
\<close>

fun rept :: "(pos \<Rightarrow> pos list) \<Rightarrow> nat \<Rightarrow> nat \<Rightarrow> pos \<Rightarrow> pos list" where
  "rept m lo 0 st = (if lo = 0 then [st] else [])"
| "rept m lo (Suc hi) st =
     concat (map (rept m (lo - 1) hi) (m st)) @ (if lo = 0 then [st] else [])"

text \<open>
  An open upper bound is bounded by the number of characters left: every body repeated
  in the six patterns consumes a character in each round.
\<close>

fun ends :: "rx \<Rightarrow> pos \<Rightarrow> pos list" where
  "ends (Lit c) st = step (\<lambda>d. d = c) st"
| "ends (LitI c) st = step (\<lambda>d. lower d = lower c) st"
| "ends (Any S) st = step (in_set S) st"
| "ends (Non S) st = step (\<lambda>d. \<not> in_set S d) st"
| "ends Bound st = (if at_boundary st then [st] else [])"
| "ends Eps st = [st]"
| "ends (Seq r1 r2) st = concat (map (ends r2) (ends r1 st))"
| "ends (Rep lo hi r) st =
     rept (ends r) lo (case hi of None \<Rightarrow> length (snd st) | Some h \<Rightarrow> h) st"

section \<open>The patterns\<close>

definition ipv4_pattern :: rx where
  "ipv4_pattern = cat [Bound,
     Rep 3 (Some 3) (Seq (Rep 1 (Some 3) (Any [Digit])) (Lit CHR ''.'')),
     Rep 1 (Some 3) (Any [Digit]), Bound]"

definition url_pattern :: rx where
  "url_pattern = cat [Bound, Lit CHR ''h'', Lit CHR ''t'', Lit CHR ''t'', Lit CHR ''p'',
     Rep 0 (Some 1) (Lit CHR ''s''), Lit CHR '':'', Lit CHR ''/'', Lit CHR ''/'',
     Rep 1 None (Non [Space])]"

definition email_pattern :: rx where
  "email_pattern = cat [Bound,
     Rep 1 None (Any [Range CHR ''a'' CHR ''z'', Range CHR ''A'' CHR ''Z'',
                      Range CHR ''0'' CHR ''9'', Single CHR ''.'', Single CHR ''_'',
                      Single CHR ''%'', Single CHR ''+'', Single CHR ''-'']),
     Lit CHR ''@'',
     Rep 1 None (Any [Range CHR ''a'' CHR ''z'', Range CHR ''A'' CHR ''Z'',
                      Range CHR ''0'' CHR ''9'', Single CHR ''.'', Single CHR ''-'']),
     Lit CHR ''.'',
     Rep 2 None (Any [Range CHR ''a'' CHR ''z'', Range CHR ''A'' CHR ''Z'']), Bound]"

definition hex2 :: rx where
  "hex2 = Rep 2 (Some 2) (Any [Range CHR ''0'' CHR ''9'', Range CHR ''A'' CHR ''F'',
                               Range CHR ''a'' CHR ''f''])"

definition mac_pattern :: rx where
  "mac_pattern = cat [Bound, Rep 5 (Some 5) (Seq hex2 (Lit CHR '':'')), hex2, Bound]"

definition port_pattern :: rx where
  "port_pattern = cat [Bound, LitI CHR ''p'', LitI CHR ''o'', LitI CHR ''r'', LitI CHR ''t'',
     Rep 1 None (Any [Space]), Rep 1 (Some 5) (Any [Digit]), Bound]"

definition host_pattern :: rx where
  "host_pattern = cat [Bound,
     Rep 1 None (Seq (Rep 1 None (Any [Range CHR ''a'' CHR ''z'', Range CHR ''A'' CHR ''Z'',
                                       Range CHR ''0'' CHR ''9'', Single CHR ''-'']))
                     (Lit CHR ''.'')),
     Rep 2 None (Any [Range CHR ''a'' CHR ''z'', Range CHR ''A'' CHR ''Z'']), Bound]"

definition compile_patterns :: "rx list" where
  "compile_patterns =
     [ipv4_pattern, url_pattern, email_pattern, mac_pattern, port_pattern, host_pattern]"

section \<open>Substitution\<close>

text \<open>
  Every end position of a match is the start position moved forward over some consumed
  characters; \<open>sub_at\<close> below terminates because of this.
\<close>

definition after :: "char option \<Rightarrow> string \<Rightarrow> char option" where
  "after p m = (if m = [] then p else Some (last m))"

definition reaches :: "pos \<Rightarrow> pos \<Rightarrow> bool" where
  "reaches st e = (\<exists>m. snd st = m @ snd e \<and> fst e = after (fst st) m)"

lemma reaches_refl: "reaches st st"
  by (simp add: reaches_def after_def)

lemma after_append: "after (after p m1) m2 = after p (m1 @ m2)"
  by (simp add: after_def)

lemma reaches_trans:
  assumes "reaches a b" and "reaches b c"
  shows "reaches a c"
proof -
  from assms(1) obtain m1 where m1: "snd a = m1 @ snd b" "fst b = after (fst a) m1"
    unfolding reaches_def by blast
  from assms(2) obtain m2 where m2: "snd b = m2 @ snd c" "fst c = after (fst b) m2"
    unfolding reaches_def by blast
  have "snd a = (m1 @ m2) @ snd c" "fst c = after (fst a) (m1 @ m2)"
    using m1 m2 by (simp_all add: after_append)
  then show ?thesis
    unfolding reaches_def by blast
qed

lemma step_reaches: "e \<in> set (step ok st) \<Longrightarrow> reaches st e"
  by (cases "(ok, st)" rule: step.cases) (auto simp: reaches_def after_def split: if_splits)

lemma rept_reaches:
  assumes m: "\<And>st e. e \<in> set (m st) \<Longrightarrow> reaches st e"
  shows "e \<in> set (rept m lo hi st) \<Longrightarrow> reaches st e"
proof (induction hi arbitrary: lo st)
  case 0
  then show ?case by (auto simp: reaches_refl split: if_splits)
next
  case (Suc hi)
  from Suc.prems consider
      (more) st' where "st' \<in> set (m st)" "e \<in> set (rept m (lo - 1) hi st')"
    | (stop) "e = st"
    by (auto split: if_splits)
  then show ?case
  proof cases
    case more
    then show ?thesis using m Suc.IH reaches_trans by blast
  next
    case stop
    then show ?thesis by (simp add: reaches_refl)
  qed
qed

lemma ends_reaches: "e \<in> set (ends r st) \<Longrightarrow> reaches st e"
proof (induction r arbitrary: st e)
  case (Seq r1 r2)
  then obtain st' where "st' \<in> set (ends r1 st)" "e \<in> set (ends r2 st')"
    by auto
  then show ?case using Seq.IH reaches_trans by blast
next
  case (Rep lo hi r)
  from Rep.prems show ?case
    unfolding ends.simps by (rule rept_reaches[rotated]) (rule Rep.IH)
qed (auto simp: reaches_refl step_reaches split: if_splits)

lemma reaches_length: "reaches st e \<Longrightarrow> length (snd e) \<le> length (snd st)"
  by (auto simp: reaches_def)

text \<open>
  One attempt of \<open>re\<close> at a position: the first end in backtracking order. After an
  empty match the next attempt at the same position must consume a character
  (\<open>must_advance\<close>).
\<close>

definition first_match :: "rx \<Rightarrow> bool \<Rightarrow> pos \<Rightarrow> pos option" where
  "first_match r must_advance st =
     (case filter (\<lambda>e. \<not> must_advance \<or> length (snd e) < length (snd st)) (ends r st) of
        [] \<Rightarrow> None
      | e # _ \<Rightarrow> Some e)"

lemma first_match_in:
  assumes "first_match r adv st = Some e"
  shows "e \<in> set (ends r st) \<and> (adv \<longrightarrow> length (snd e) < length (snd st))"
proof -
  let ?P = "\<lambda>e. \<not> adv \<or> length (snd e) < length (snd st)"
  from assms obtain es where "filter ?P (ends r st) = e # es"
    by (auto simp: first_match_def split: list.splits)
  then have "e \<in> set (filter ?P (ends r st))"
    by simp
  then show ?thesis
    by simp
qed

text \<open>\<open>_mask_match\<close>: as many \<open>x\<close> as the match has characters.\<close>

definition mask_match :: "string \<Rightarrow> string" where
  "mask_match m = replicate (length m) CHR ''x''"

text \<open>
  \<open>pattern.sub(self._mask_match, text)\<close> from a position on: where a match starts,
  its characters are replaced and the scan goes on behind it; elsewhere the character is
  copied and the scan moves one character forward.
\<close>

function sub_at :: "rx \<Rightarrow> bool \<Rightarrow> pos \<Rightarrow> string" where
  "sub_at r adv (p, cs) =
     (case first_match r adv (p, cs) of
        Some (q, rest) \<Rightarrow>
          mask_match (take (length cs - length rest) cs) @
          sub_at r (length rest = length cs) (q, rest)
      | None \<Rightarrow> (case cs of [] \<Rightarrow> [] | c # cs' \<Rightarrow> c # sub_at r False (Some c, cs')))"
  by pat_completeness auto
termination
proof (relation "measure (\<lambda>(r, adv, p, cs). 2 * length cs + (if adv then 0 else 1))")
  show "wf (measure (\<lambda>(r, adv, p, cs). 2 * length cs + (if adv then 0 else 1)))"
    by simp
next
  fix r :: rx and adv :: bool and p :: "char option" and cs :: string
    and e :: pos and q :: "char option" and rest :: string
  assume "first_match r adv (p, cs) = Some e" and "(q, rest) = e"
  then have m: "(q, rest) \<in> set (ends r (p, cs))" and a: "adv \<longrightarrow> length rest < length cs"
    using first_match_in[of r adv "(p, cs)" e] by auto
  from m have "length rest \<le> length cs"
    using ends_reaches reaches_length by fastforce
  with a show "((r, length rest = length cs, q, rest), (r, adv, p, cs))
      \<in> measure (\<lambda>(r, adv, p, cs). 2 * length cs + (if adv then 0 else 1))"
    by auto
next
  fix r :: rx and adv :: bool and p :: "char option" and cs :: string and c :: char and cs' :: string
  assume "cs = c # cs'"
  then show "((r, False, Some c, cs'), (r, adv, p, cs))
      \<in> measure (\<lambda>(r, adv, p, cs). 2 * length cs + (if adv then 0 else 1))"
    by simp
qed

declare sub_at.simps [simp del]

definition sub :: "rx \<Rightarrow> string \<Rightarrow> string" where
  "sub r text = sub_at r False (None, text)"

text \<open>\<open>anonymise_text\<close>: the patterns are applied one after the other, in order.\<close>

definition anonymise_text :: "string \<Rightarrow> string" where
  "anonymise_text text = foldl (\<lambda>t r. sub r t) text compile_patterns"

text \<open>\<open>pattern.search(text) is not None\<close>: the pattern matches somewhere from here on.\<close>

fun search_hit :: "rx \<Rightarrow> pos \<Rightarrow> bool" where
  "search_hit r (p, []) = (ends r (p, []) \<noteq> [])"
| "search_hit r (p, c # cs) = (ends r (p, c # cs) \<noteq> [] \<or> search_hit r (Some c, cs))"

definition matches_in :: "rx \<Rightarrow> string \<Rightarrow> bool" where
  "matches_in r text = search_hit r (None, text)"

text \<open>One text is another with some characters replaced by \<open>x\<close>.\<close>

definition masking :: "string \<Rightarrow> string \<Rightarrow> bool" where
  "masking t t' = list_all2 (\<lambda>a b. b = a \<or> b = CHR ''x'') t t'"

section \<open>The document walker\<close>

text \<open>
  The document library is outside the repository. A document is the tree the walker sees:
  a run has a text and its formatting, a paragraph has runs, a table has rows of cells, a
  cell has paragraphs and nested tables, a section has a header and a footer. \<open>'f\<close>
  stands for everything that is not text. A run's text may be absent (\<open>None\<close>);
  \<open>if run.text\<close> is false for an absent and for an empty text.
\<close>

record 'f run =
  run_text :: "string option"
  run_format :: 'f

record 'f para =
  runs :: "'f run list"
  para_format :: 'f

datatype 'f table = Table (rows: "'f cell list list")
  and 'f cell = Cell (paragraphs: "'f para list") (tables: "'f table list")

record 'f story =
  story_paragraphs :: "'f para list"
  story_tables :: "'f table list"

record 'f sect =
  header :: "'f story"
  footer :: "'f story"

record 'f document =
  doc_paragraphs :: "'f para list"
  doc_tables :: "'f table list"
  sections :: "'f sect list"

definition process_run :: "'f run \<Rightarrow> 'f run" where
  "process_run r =
     (case run_text r of
        None \<Rightarrow> r
      | Some t \<Rightarrow> if t \<noteq> [] then r\<lparr>run_text := Some (anonymise_text t)\<rparr> else r)"

definition process_runs :: "'f para \<Rightarrow> 'f para" where
  "process_runs p = p\<lparr>runs := map process_run (runs p)\<rparr>"

definition process_paragraphs :: "'f para list \<Rightarrow> 'f para list" where
  "process_paragraphs ps = map process_runs ps"

fun process_table :: "'f table \<Rightarrow> 'f table"
  and process_cell :: "'f cell \<Rightarrow> 'f cell" where
  "process_table (Table rs) = Table (map (map process_cell) rs)"
| "process_cell (Cell ps ts) = Cell (process_paragraphs ps) (map process_table ts)"

definition process_tables :: "'f table list \<Rightarrow> 'f table list" where
  "process_tables ts = map process_table ts"

definition process_story :: "'f story \<Rightarrow> 'f story" where
  "process_story s = s\<lparr>story_paragraphs := process_paragraphs (story_paragraphs s),
                        story_tables := process_tables (story_tables s)\<rparr>"

definition process_headers_footers :: "'f document \<Rightarrow> 'f document" where
  "process_headers_footers doc =
     doc\<lparr>sections := map (\<lambda>s. s\<lparr>header := process_story (header s),
                                     footer := process_story (footer s)\<rparr>) (sections doc)\<rparr>"

text \<open>The three traversal statements of \<open>anonymise_docx\<close>: body, tables, headers and footers.\<close>

definition process_document :: "'f document \<Rightarrow> 'f document" where
  "process_document doc =
     process_headers_footers
       (doc\<lparr>doc_paragraphs := process_paragraphs (doc_paragraphs doc),
            doc_tables := process_tables (doc_tables doc)\<rparr>)"




section \<open>Files and the batch\<close>

text \<open>
  What \<open>folder.iterdir()\<close> yields: a path with its \<open>parent\<close> and \<open>name\<close>, and
  what \<open>is_file()\<close> answers for it.
\<close>

record entry =
  parent :: string
  name :: string
  is_file :: bool

record folder =
  folder_exists :: bool
  folder_is_dir :: bool
  iterdir :: "entry list"

text \<open>\<open>str.rfind\<close> of one character: the index of its last occurrence.\<close>

fun rfind :: "char \<Rightarrow> string \<Rightarrow> nat option" where
  "rfind c [] = None"
| "rfind c (d # ds) =
     (case rfind c ds of
        Some i \<Rightarrow> Some (Suc i)
      | None \<Rightarrow> if d = c then Some 0 else None)"

text \<open>
  \<open>Path.suffix\<close> of pathlib: the name from its last dot on, unless that dot is the
  first or the last character of the name.
\<close>

definition path_suffix :: "string \<Rightarrow> string" where
  "path_suffix nm =
     (case rfind CHR ''.'' nm of
        None \<Rightarrow> []
      | Some i \<Rightarrow> if 0 < i \<and> i + 1 < length nm then drop i nm else [])"

definition startswith :: "string \<Rightarrow> string \<Rightarrow> bool" where
  "startswith s pre = (take (length pre) s = pre)"

definition eligible :: "entry \<Rightarrow> bool" where
  "eligible f = (is_file f \<and> map lower (path_suffix (name f)) = ''.docx''
                 \<and> \<not> startswith (name f) ''Anonymised_'')"

definition target_files :: "folder \<Rightarrow> entry list" where
  "target_files fo = filter eligible (iterdir fo)"

text \<open>
  Exceptions: \<open>Exception msg\<close> is an instance of \<open>Exception\<close> whose \<open>str\<close> is
  \<open>msg\<close>; \<open>KeyboardInterrupt\<close> is not an instance of \<open>Exception\<close>. The document
  library is a parameter: what loading a file gives, the exception (if any) it raises while
  the loaded document is traversed, and the exception (if any) saving raises.
\<close>

datatype exn = Exception string | KeyboardInterrupt

record 'f library =
  load :: "entry \<Rightarrow> exn + 'f document"
  traverse_fault :: "'f document \<Rightarrow> exn option"
  save_fault :: "'f document \<Rightarrow> string \<times> string \<Rightarrow> exn option"

text \<open>The effects: the documents saved, with parent folder and file name, and the lines printed.\<close>

record 'f world =
  saved :: "((string \<times> string) \<times> 'f document) list"
  console :: "string list"

definition say :: "string \<Rightarrow> 'f world \<Rightarrow> 'f world" where
  "say line w = w\<lparr>console := console w @ [line]\<rparr>"

text \<open>The body of the \<open>try\<close> in \<open>anonymise_docx\<close>.\<close>

definition docx_body :: "'f library \<Rightarrow> entry \<Rightarrow> 'f world \<Rightarrow> exn + 'f world" where
  "docx_body lib file_path w =
     (case load lib file_path of
        Inl e \<Rightarrow> Inl e
      | Inr doc \<Rightarrow>
          (case traverse_fault lib doc of
             Some e \<Rightarrow> Inl e
           | None \<Rightarrow>
               (let doc' = process_document doc;
                    new_file_name = ''Anonymised_'' @ name file_path;
                    new_file_path = (parent file_path, new_file_name)
                in case save_fault lib doc' new_file_path of
                     Some e \<Rightarrow> Inl e
                   | None \<Rightarrow> Inr (w\<lparr>saved := saved w @ [(new_file_path, doc')]\<rparr>))))"

definition error_line :: "string \<Rightarrow> string \<Rightarrow> string" where
  "error_line nm msg = CHR 0x0A # ''Error processing '' @ nm @ '': '' @ msg"

text \<open>
  \<open>anonymise_docx\<close>: \<open>except Exception\<close> prints and returns; anything else goes on to
  the caller. The result is the world and the exception that leaves the function, if any.
\<close>

definition anonymise_docx :: "'f library \<Rightarrow> entry \<Rightarrow> 'f world \<Rightarrow> 'f world \<times> exn option" where
  "anonymise_docx lib file_path w =
     (case docx_body lib file_path w of
        Inr w' \<Rightarrow> (w', None)
      | Inl (Exception msg) \<Rightarrow> (say (error_line (name file_path) msg) w, None)
      | Inl KeyboardInterrupt \<Rightarrow> (w, Some KeyboardInterrupt))"

text \<open>The \<open>for\<close> loop of \<open>process_folder\<close>.\<close>

fun run_files :: "'f library \<Rightarrow> entry list \<Rightarrow> 'f world \<Rightarrow> 'f world \<times> exn option" where
  "run_files lib [] w = (w, None)"
| "run_files lib (f # fs) w =
     (case anonymise_docx lib f w of
        (w', None) \<Rightarrow> run_files lib fs w'
      | (w', Some e) \<Rightarrow> (w', Some e))"

definition process_folder :: "'f library \<Rightarrow> folder \<Rightarrow> 'f world \<Rightarrow> 'f world" where
  "process_folder lib fo w =
     (if \<not> folder_exists fo \<or> \<not> folder_is_dir fo then say ''Invalid folder path provided.'' w
      else let files = target_files fo in
        if files = [] then say ''No DOCX reports found.'' w
        else (case run_files lib files w of
                (w', None) \<Rightarrow> say (CHR 0x0A # ''Anonymisation complete'') w'
              | (w', Some KeyboardInterrupt) \<Rightarrow> say (CHR 0x0A # ''Process interrupted by user.'') w'
              | (w', Some (Exception msg)) \<Rightarrow>
                  say (CHR 0x0A # ''Unexpected error occurred: '' @ msg) w'))"



text \<open>A library and two files for examples: loading \<open>bad.docx\<close> fails.\<close>

definition empty_document :: "unit document" where
  "empty_document = \<lparr>doc_paragraphs = [], doc_tables = [], sections = []\<rparr>"

definition demo_library :: "unit library" where
  "demo_library = \<lparr>
     load = (\<lambda>f. if name f = ''bad.docx'' then Inl (Exception ''corrupt'') else Inr empty_document),
     traverse_fault = (\<lambda>d. None),
     save_fault = (\<lambda>d p. None)\<rparr>"

definition bad_file :: entry where
  "bad_file = \<lparr>parent = ''reports'', name = ''bad.docx'', is_file = True\<rparr>"

definition good_file :: entry where
  "good_file = \<lparr>parent = ''reports'', name = ''good.docx'', is_file = True\<rparr>"

definition empty_world :: "unit world" where
  "empty_world = \<lparr>saved = [], console = []\<rparr>"


section \<open>Worked examples of the masker\<close>

lemma server_example:
  "anonymise_text ''Server at 192.168.1.10 is vulnerable to CVE-2023-44487.'' =
     ''Server at xxxxxxxxxxxx is vulnerable to CVE-2023-44487.''"
  by code_simp

text \<open>
  C5, as the specification states it: the example sentence comes out with thirteen
  \<open>x\<close> in place of the address. It does not: the address has twelve characters.
\<close>

theorem server_example_thirteen_counterexample:
  "anonymise_text ''Server at 192.168.1.10 is vulnerable to CVE-2023-44487.'' \<noteq>
     ''Server at xxxxxxxxxxxxx is vulnerable to CVE-2023-44487.''"
  by (simp add: server_example)

text \<open>
  C5, amended: on the example sentence \<open>anonymise_text\<close> replaces the address
  \<open>192.168.1.10\<close> by twelve \<open>x\<close>, one for each of its characters, and leaves the
  CVE identifier and all other text unchanged.
\<close>

theorem server_example_masked:
  "anonymise_text ''Server at 192.168.1.10 is vulnerable to CVE-2023-44487.'' =
     ''Server at '' @ mask_match ''192.168.1.10'' @ '' is vulnerable to CVE-2023-44487.'' \<and>
   mask_match ''192.168.1.10'' = ''xxxxxxxxxxxx''"
  by (simp add: server_example mask_match_def)



section \<open>The walker keeps the structure\<close>









section \<open>Errors of one file stay in that file\<close>

lemma anonymise_docx_no_exception: "snd (anonymise_docx lib f w) \<noteq> Some (Exception msg)"
  by (simp add: anonymise_docx_def split: sum.splits exn.splits)

lemma anonymise_docx_caught:
  "docx_body lib f w = Inl (Exception msg) \<Longrightarrow>
   anonymise_docx lib f w = (say (error_line (name f) msg) w, None)"
  by (simp add: anonymise_docx_def)

lemma docx_body_saved:
  "docx_body lib f w = Inr w' \<Longrightarrow>
   length (saved w') = Suc (length (saved w)) \<and> console w' = console w"
  by (auto simp: docx_body_def Let_def split: sum.splits option.splits)

lemma anonymise_docx_one_effect:
  assumes "docx_body lib f w \<noteq> Inl KeyboardInterrupt"
  shows "\<exists>w'. anonymise_docx lib f w = (w', None) \<and>
      length (saved w') + length (console w') = Suc (length (saved w) + length (console w))"
proof (cases "docx_body lib f w")
  case (Inl e)
  with assms obtain msg where "e = Exception msg"
    by (cases e) auto
  with Inl show ?thesis
    by (simp add: anonymise_docx_def say_def)
next
  case (Inr w')
  then show ?thesis
    using docx_body_saved[OF Inr] by (simp add: anonymise_docx_def)
qed

lemma docx_body_world: "docx_body lib f w = Inl e \<Longrightarrow> docx_body lib f w' = Inl e"
  by (auto simp: docx_body_def Let_def split: sum.splits option.splits)

lemma run_files_all:
  assumes "\<forall>f \<in> set fs. \<forall>w. docx_body lib f w \<noteq> Inl KeyboardInterrupt"
  shows "\<exists>w'. run_files lib fs w = (w', None) \<and>
      length (saved w') + length (console w') = length (saved w) + length (console w) + length fs"
  using assms
proof (induction fs arbitrary: w)
  case Nil
  then show ?case by simp
next
  case (Cons f fs)
  then have "docx_body lib f w \<noteq> Inl KeyboardInterrupt"
    by simp
  from anonymise_docx_one_effect[OF this] obtain w1 where
    w1: "anonymise_docx lib f w = (w1, None)"
      "length (saved w1) + length (console w1) = Suc (length (saved w) + length (console w))"
    by blast
  from Cons obtain w' where "run_files lib fs w1 = (w', None)"
    "length (saved w') + length (console w') = length (saved w1) + length (console w1) + length fs"
    by fastforce
  with w1 show ?case
    by simp
qed

text \<open>
  C8: an exception (an instance of \<open>Exception\<close>) raised while one document is loaded,
  traversed or saved is caught in \<open>anonymise_docx\<close>, which prints a line with the file
  name and the message and returns normally, so the loop goes on with the remaining files;
  when no step is interrupted, the loop reaches its end and every file has left either one
  saved document or one printed line.
\<close>

theorem per_file_errors_contained:
  "(docx_body lib f w = Inl (Exception msg) \<longrightarrow>
      anonymise_docx lib f w = (say (error_line (name f) msg) w, None) \<and>
      run_files lib (f # fs) w = run_files lib fs (say (error_line (name f) msg) w)) \<and>
   error_line (name f) msg = CHR 0x0A # ''Error processing '' @ name f @ '': '' @ msg \<and>
   ((\<forall>g \<in> set gs. \<forall>v. docx_body lib g v \<noteq> Inl KeyboardInterrupt) \<longrightarrow>
      (\<exists>w'. run_files lib gs w = (w', None) \<and>
         length (saved w') + length (console w') =
           length (saved w) + length (console w) + length gs))"
  using run_files_all[of gs lib w]
  by (simp add: anonymise_docx_caught error_line_def)

theorem per_file_errors_contained_witness:
  "anonymise_docx demo_library bad_file empty_world =
     (say (error_line (name bad_file) ''corrupt'') empty_world, None) \<and>
   run_files demo_library [bad_file, good_file] empty_world =
     run_files demo_library [good_file] (say (error_line (name bad_file) ''corrupt'') empty_world) \<and>
   (\<exists>w'. run_files demo_library [bad_file, good_file] empty_world = (w', None) \<and>
      length (saved w') + length (console w') = 2)"
proof -
  have b: "docx_body demo_library bad_file empty_world = Inl (Exception ''corrupt'')"
    by (simp add: docx_body_def demo_library_def bad_file_def)
  have k: "\<forall>g \<in> set [bad_file, good_file]. \<forall>v. docx_body demo_library g v \<noteq> Inl KeyboardInterrupt"
    by (simp add: docx_body_def demo_library_def bad_file_def good_file_def Let_def)
  have l: "length (saved empty_world) + length (console empty_world) +
      length [bad_file, good_file] = 2"
    by (simp add: empty_world_def)
  note t = per_file_errors_contained[of demo_library bad_file empty_world "''corrupt''"
      "[good_file]" "[bad_file, good_file]"]
  from t b have "anonymise_docx demo_library bad_file empty_world =
      (say (error_line (name bad_file) ''corrupt'') empty_world, None)"
    and "run_files demo_library [bad_file, good_file] empty_world =
      run_files demo_library [good_file] (say (error_line (name bad_file) ''corrupt'') empty_world)"
    by blast+
  moreover from t k have "\<exists>w'. run_files demo_library [bad_file, good_file] empty_world = (w', None) \<and>
      length (saved w') + length (console w') =
        length (saved empty_world) + length (console empty_world) + length [bad_file, good_file]"
    by blast
  then have "\<exists>w'. run_files demo_library [bad_file, good_file] empty_world = (w', None) \<and>
      length (saved w') + length (console w') = 2"
    unfolding l .
  ultimately show ?thesis
    by blast
qed

section \<open>Which files are processed\<close>









text \<open>
  C10: the extension is compared without case and the prefix with case:
  \<open>REPORT.DOCX\<close> and \<open>anonymised_report.docx\<close> are taken,
  \<open>Anonymised_report.docx\<close> is not.
\<close>

theorem case_asymmetry:
  "eligible \<lparr>parent = ''reports'', name = ''REPORT.DOCX'', is_file = True\<rparr> \<and>
   eligible \<lparr>parent = ''reports'', name = ''anonymised_report.docx'', is_file = True\<rparr> \<and>
   \<not> eligible \<lparr>parent = ''reports'', name = ''Anonymised_report.docx'', is_file = True\<rparr>"
  by code_simp

section \<open>The scan keeps the length and only masks\<close>



lemma sub_at_miss:
  assumes "first_match r adv (p, c # cs) = None"
  shows "sub_at r adv (p, c # cs) = c # sub_at r False (Some c, cs)"
  using assms by (simp add: sub_at.simps)

lemma sub_at_end:
  assumes "first_match r adv (p, []) = None"
  shows "sub_at r adv (p, []) = []"
  using assms by (simp add: sub_at.simps)



lemma masking_length: "masking a b \<Longrightarrow> length b = length a"
  by (simp add: masking_def list_all2_lengthD)









section \<open>Text without a match\<close>

lemma no_hit_first_match: "\<not> search_hit r (p, cs) \<Longrightarrow> first_match r adv (p, cs) = None"
  by (cases cs) (simp_all add: first_match_def)

lemma sub_at_no_hit: "\<not> search_hit r (p, cs) \<Longrightarrow> sub_at r adv (p, cs) = cs"
proof (induction cs arbitrary: p adv)
  case Nil
  then show ?case by (simp add: sub_at_end no_hit_first_match)
next
  case (Cons c cs)
  then have "\<not> search_hit r (Some c, cs)" by simp
  then have "sub_at r False (Some c, cs) = cs" by (rule Cons.IH)
  then show ?case
    using sub_at_miss[OF no_hit_first_match[OF Cons.prems]] by simp
qed

lemma sub_no_match: "\<not> matches_in r t \<Longrightarrow> sub r t = t"
  by (simp add: sub_def matches_in_def sub_at_no_hit)

lemma foldl_sub_no_match: "\<forall>r \<in> set rs. \<not> matches_in r t \<Longrightarrow> foldl (\<lambda>t r. sub r t) t rs = t"
  by (induction rs) (simp_all add: sub_no_match)


text \<open>
  C7: a text in which none of the six patterns matches anywhere is returned unchanged.
\<close>

theorem no_match_unchanged:
  "\<forall>r \<in> set compile_patterns. \<not> matches_in r t \<Longrightarrow> anonymise_text t = t"
  by (simp add: anonymise_text_def foldl_sub_no_match)

theorem no_match_unchanged_witness:
  "anonymise_text ''No issue found, see CVE-2024-12345'' = ''No issue found, see CVE-2024-12345''"
proof -
  have "\<forall>r \<in> set compile_patterns. \<not> matches_in r ''No issue found, see CVE-2024-12345''"
    by code_simp
  then show ?thesis
    by (rule no_match_unchanged)
qed

section \<open>A second application\<close>






end
